theory Spec2Isabelle
  imports Complex_Main
begin

section \<open>Python values, exceptions and built-ins used by \<open>dnnbrain/utils/util.py\<close>\<close>

text \<open>
  The exceptions the two functions can raise. \<open>assert\<close> raises \<open>AssertionError\<close> with the
  message of the statement, \<open>raise ValueError(...)\<close> carries its message, indexing an empty
  list raises \<open>IndexError\<close>, dividing by a float zero raises \<open>ZeroDivisionError\<close>,
  converting an integer too large for a float raises \<open>OverflowError\<close>, as does \<open>int\<close> of an
  infinity, \<open>int\<close> of a NaN raises \<open>ValueError\<close>, and adding a float and a value that is
  not a number raises \<open>TypeError\<close>. \<open>OtherError\<close> stands for whatever the mask file loader
  raises.
\<close>

datatype error =
    AssertionError string
  | ValueError string
  | TypeError
  | IndexError
  | ZeroDivisionError
  | OverflowError
  | OtherError string

definition layers_empty :: string where
  "layers_empty = '''layers' can't be empty!''"

definition channels_length :: string where
  "channels_length =
     '''channels' must be None or a list with same length as 'layers' when the length of 'layers' is larger than 1.''"

text \<open>
  The spec files every violated precondition of the two functions under one name,
  \<open>InvalidArgument\<close>. In the source these are the failed \<open>assert\<close> statements and the two
  explicit \<open>ValueError\<close>s of \<open>gen_dmask\<close>; a \<open>ValueError\<close> of a built-in is not one.
\<close>

fun InvalidArgument :: "error \<Rightarrow> bool" where
  "InvalidArgument (AssertionError m) = True"
| "InvalidArgument (ValueError m) = (m = layers_empty \<or> m = channels_length)"
| "InvalidArgument e = False"

text \<open>
  Python floats are IEEE doubles: their arithmetic rounds, absorbs, overflows to an
  infinity and has NaN. None of this is fixed here. The floats are a type \<open>'f\<close> and their
  operations a parameter, so that what is proved holds of every float arithmetic, that
  of the machine included:
  \<^item> \<open>float_one\<close> is the float 1.0 (what the literal \<open>1\<close> converts to);
  \<^item> \<open>float_of_int\<close> converts an integer, and is \<open>None\<close> where Python raises
    \<open>OverflowError\<close> (``int too large to convert to float'');
  \<^item> \<open>float_is_zero\<close> is the test \<open>x == 0.0\<close> that float division makes of its divisor;
  \<^item> \<open>float_div\<close>, \<open>float_mul\<close>, \<open>float_add\<close> are the machine's \<open>/\<close> (for a non-zero
    divisor), \<open>*\<close> and \<open>+\<close>;
  \<^item> \<open>float_trunc\<close> is the truncation that \<open>int(x)\<close> makes, which has no value for a NaN
    or an infinity.
\<close>

datatype trunc = Trunc int | TruncNaN | TruncInf

record 'f float_ops =
  float_one :: 'f
  float_of_int :: "int \<Rightarrow> 'f option"
  float_is_zero :: "'f \<Rightarrow> bool"
  float_div :: "'f \<Rightarrow> 'f \<Rightarrow> 'f"
  float_mul :: "'f \<Rightarrow> 'f \<Rightarrow> 'f"
  float_add :: "'f \<Rightarrow> 'f \<Rightarrow> 'f"
  float_trunc :: "'f \<Rightarrow> trunc"

text \<open>
  The arguments are dynamically typed: the source tests \<open>interval\<close> with
  \<open>isinstance(interval, int)\<close>, and adds \<open>original_onset\<close>, \<open>before_vid\<close> and \<open>after_vid\<close>
  to floats whatever they are. \<open>bool\<close> is a subclass of \<open>int\<close> in Python (\<open>True\<close> is the
  integer 1).
\<close>

datatype 'f pyval =
    IntV int
  | BoolV bool
  | FloatV 'f
  | StrV string
  | NoneV

fun isinstance_int :: "'f pyval \<Rightarrow> bool" where
  "isinstance_int (IntV i) = True"
| "isinstance_int (BoolV b) = True"
| "isinstance_int v = False"

text \<open>The integer an \<open>int\<close> instance denotes; only used after \<open>isinstance_int\<close> held.\<close>

fun int_of :: "'f pyval \<Rightarrow> int" where
  "int_of (IntV i) = i"
| "int_of (BoolV b) = (if b then 1 else 0)"
| "int_of v = 0"

text \<open>
  What float arithmetic does with its other operand: a float is taken as it is, an
  \<open>int\<close> (or \<open>bool\<close>) is converted, which may overflow, and anything else is refused.
\<close>

fun to_float :: "'f float_ops \<Rightarrow> 'f pyval \<Rightarrow> error + 'f" where
  "to_float ops (FloatV x) = Inr x"
| "to_float ops (IntV i) =
     (case float_of_int ops i of None \<Rightarrow> Inl OverflowError | Some x \<Rightarrow> Inr x)"
| "to_float ops (BoolV b) =
     (case float_of_int ops (if b then 1 else 0) of None \<Rightarrow> Inl OverflowError | Some x \<Rightarrow> Inr x)"
| "to_float ops v = Inl TypeError"

text \<open>\<open>1 / x\<close> for a float \<open>x\<close>.\<close>

definition one_div_float :: "'f float_ops \<Rightarrow> 'f \<Rightarrow> error + 'f" where
  "one_div_float ops x =
     (if float_is_zero ops x then Inl ZeroDivisionError
      else Inr (float_div ops (float_one ops) x))"

text \<open>\<open>x * v\<close> and \<open>x + v\<close> for a float \<open>x\<close> and any value \<open>v\<close>.\<close>

definition float_mul_py :: "'f float_ops \<Rightarrow> 'f \<Rightarrow> 'f pyval \<Rightarrow> error + 'f" where
  "float_mul_py ops x v =
     (case to_float ops v of Inl e \<Rightarrow> Inl e | Inr y \<Rightarrow> Inr (float_mul ops x y))"

definition float_add_py :: "'f float_ops \<Rightarrow> 'f \<Rightarrow> 'f pyval \<Rightarrow> error + 'f" where
  "float_add_py ops x v =
     (case to_float ops v of Inl e \<Rightarrow> Inl e | Inr y \<Rightarrow> Inr (float_add ops x y))"

text \<open>\<open>v + x\<close> for any value \<open>v\<close> and a float \<open>x\<close>; the sum is a float.\<close>

definition py_add_float :: "'f float_ops \<Rightarrow> 'f pyval \<Rightarrow> 'f \<Rightarrow> error + 'f pyval" where
  "py_add_float ops v x =
     (case to_float ops v of Inl e \<Rightarrow> Inl e | Inr y \<Rightarrow> Inr (FloatV (float_add ops y x)))"

text \<open>\<open>int(x)\<close> of a float truncates towards zero, and raises for a NaN or an infinity.\<close>

definition py_int :: "'f float_ops \<Rightarrow> 'f \<Rightarrow> error + int" where
  "py_int ops x =
     (case float_trunc ops x of
        Trunc n \<Rightarrow> Inr n
      | TruncNaN \<Rightarrow> Inl (ValueError ''cannot convert float NaN to integer'')
      | TruncInf \<Rightarrow> Inl OverflowError)"

text \<open>
  \<open>range(start, stop, step)\<close> as CPython computes it: a zero step raises \<open>ValueError\<close>;
  otherwise the length is computed once from the bounds and element \<open>i\<close> is
  \<open>start + i * step\<close>.
\<close>

definition range_length :: "int \<Rightarrow> int \<Rightarrow> int \<Rightarrow> nat" where
  "range_length lo hi step = (if lo < hi then nat ((hi - lo - 1) div step + 1) else 0)"

definition py_range :: "int \<Rightarrow> int \<Rightarrow> int \<Rightarrow> error + int list" where
  "py_range start stop step =
     (if step = 0 then Inl (ValueError ''range() arg 3 must not be zero'')
      else let n = (if 0 < step then range_length start stop step
                    else range_length stop start (- step))
           in Inr (map (\<lambda>i. start + int i * step) [0..<n]))"

text \<open>
  List indexing with Python's negative indices: \<open>xs[i]\<close> and \<open>xs[i] = v\<close> raise
  \<open>IndexError\<close> outside \<open>-len(xs) \<le> i < len(xs)\<close>.
\<close>

definition py_index :: "'a list \<Rightarrow> int \<Rightarrow> error + nat" where
  "py_index xs i =
     (let n = int (length xs); j = (if i < 0 then n + i else i)
      in if 0 \<le> j \<and> j < n then Inr (nat j) else Inl IndexError)"

definition getitem :: "'a list \<Rightarrow> int \<Rightarrow> error + 'a" where
  "getitem xs i = (case py_index xs i of Inl e \<Rightarrow> Inl e | Inr k \<Rightarrow> Inr (xs ! k))"

definition setitem :: "'a list \<Rightarrow> int \<Rightarrow> 'a \<Rightarrow> error + 'a list" where
  "setitem xs i v = (case py_index xs i of Inl e \<Rightarrow> Inl e | Inr k \<Rightarrow> Inr (xs[k := v]))"

section \<open>\<open>get_frame_time_info\<close>\<close>

text \<open>
  The video is an external capability: opening a file with \<open>cv2.VideoCapture\<close> and asking
  for \<open>CAP_PROP_FPS\<close> and \<open>CAP_PROP_FRAME_COUNT\<close>, both of which OpenCV answers with a
  float (and with \<open>0.0\<close> for a file it cannot read). The model takes the answers as a
  function of the file name and records each access, in order, in a trace.
\<close>

record 'f video =
  CAP_PROP_FPS :: 'f
  CAP_PROP_FRAME_COUNT :: 'f

datatype vid_event =
    VideoCapture string
  | Get_FPS
  | Get_FRAME_COUNT

text \<open>
  The loop \<open>for d in durations[:-1]: onsets.append(onsets[-1] + d)\<close>. \<open>onsets\<close> is never
  empty here, so \<open>onsets[-1]\<close> is its last element. The first addition has
  \<open>original_onset\<close> itself on the left, which need not be a float.
\<close>

fun append_onsets :: "'f float_ops \<Rightarrow> 'f pyval list \<Rightarrow> 'f list \<Rightarrow> error + 'f pyval list" where
  "append_onsets ops onsets [] = Inr onsets"
| "append_onsets ops onsets (d # ds) =
     (case py_add_float ops (last onsets) d of
        Inl e \<Rightarrow> Inl e
      | Inr v \<Rightarrow> append_onsets ops (onsets @ [v]) ds)"

text \<open>
  The result pairs the trace of video accesses with the outcome: the exception raised,
  or the three lists returned. \<open>onsets\<close> starts with \<open>original_onset\<close> as it was passed.
\<close>

definition get_frame_time_info ::
  "'f float_ops \<Rightarrow> (string \<Rightarrow> 'f video) \<Rightarrow> string \<Rightarrow> 'f pyval \<Rightarrow> 'f pyval \<Rightarrow> 'f pyval \<Rightarrow> 'f pyval
     \<Rightarrow> vid_event list \<times> (error + int list \<times> 'f pyval list \<times> 'f list)" where
  "get_frame_time_info ops cv2 vid_file original_onset interval before_vid after_vid =
     (if \<not> (isinstance_int interval \<and> 0 < int_of interval)
      then ([], Inl (AssertionError ''Parameter 'interval' must be a positive integer!''))
      else
        let vid_cap = cv2 vid_file;
            fps = CAP_PROP_FPS vid_cap;
            reads = [VideoCapture vid_file, Get_FPS, Get_FRAME_COUNT]
        in (reads,
            case py_int ops (CAP_PROP_FRAME_COUNT vid_cap) of
              Inl e \<Rightarrow> Inl e
            | Inr n_frame \<Rightarrow>
            (case py_range 1 (n_frame + 1) (int_of interval) of
              Inl e \<Rightarrow> Inl e
            | Inr frame_nums \<Rightarrow>
            (case one_div_float ops fps of
              Inl e \<Rightarrow> Inl e
            | Inr q \<Rightarrow>
            (case float_mul_py ops q interval of
              Inl e \<Rightarrow> Inl e
            | Inr duration \<Rightarrow>
                let durations = replicate (length frame_nums) duration
                in case getitem durations 0 of
                     Inl e \<Rightarrow> Inl e
                   | Inr d0 \<Rightarrow>
                  (case float_add_py ops d0 before_vid of
                     Inl e \<Rightarrow> Inl e
                   | Inr d0' \<Rightarrow>
                  (case setitem durations 0 d0' of
                     Inl e \<Rightarrow> Inl e
                   | Inr durations1 \<Rightarrow>
                  (case getitem durations1 (- 1) of
                     Inl e \<Rightarrow> Inl e
                   | Inr dl \<Rightarrow>
                  (case float_add_py ops dl after_vid of
                     Inl e \<Rightarrow> Inl e
                   | Inr dl' \<Rightarrow>
                  (case setitem durations1 (- 1) dl' of
                     Inl e \<Rightarrow> Inl e
                   | Inr durations2 \<Rightarrow>
                  (case append_onsets ops [original_onset] (butlast durations2) of
                     Inl e \<Rightarrow> Inl e
                   | Inr onsets \<Rightarrow> Inr (frame_nums, onsets, durations2))))))))))))"

section \<open>\<open>gen_dmask\<close>\<close>

text \<open>
  Modelled from the spec: the class \<open>Mask\<close> of \<open>dnnbrain.dnn.core\<close> is not among the
  sources. The spec treats it as an opaque accumulator with two operations,
  \<open>set(layer, channels=None)\<close>, which records one layer's selection and returns nothing,
  and \<open>load(path)\<close>, which may fail with the loader's own error. A mask is therefore the
  sequence of calls it has received; whether a file loads is a parameter. A \<open>load\<close> that
  fails raises from inside the call, so the mask has received it all the same.
\<close>

datatype mask_call =
    Set string "int list option"
  | Load string

type_synonym Mask = "mask_call list"

definition Mask_new :: Mask where
  "Mask_new = []"

definition Mask_set :: "Mask \<Rightarrow> string \<Rightarrow> int list option \<Rightarrow> Mask" where
  "Mask_set dmask layer channels = dmask @ [Set layer channels]"

definition Mask_load ::
  "(string \<Rightarrow> error option) \<Rightarrow> Mask \<Rightarrow> string \<Rightarrow> error \<times> Mask + Mask" where
  "Mask_load load_error dmask path =
     (case load_error path of
        Some e \<Rightarrow> Inl (e, dmask @ [Load path])
      | None \<Rightarrow> Inr (dmask @ [Load path]))"

text \<open>The loop \<open>for layer in layers: dmask.set(layer)\<close>.\<close>

fun set_layers :: "Mask \<Rightarrow> string list \<Rightarrow> Mask" where
  "set_layers dmask [] = dmask"
| "set_layers dmask (layer # layers) = set_layers (Mask_set dmask layer None) layers"

text \<open>
  The loop \<open>for layer, chn in zip(layers, channels): dmask.set(layer, [chn])\<close>; \<open>zip\<close>
  stops at the shorter list.
\<close>

fun set_pairs :: "Mask \<Rightarrow> string list \<Rightarrow> int list \<Rightarrow> Mask" where
  "set_pairs dmask (layer # layers) (chn # channels) =
     set_pairs (Mask_set dmask layer (Some [chn])) layers channels"
| "set_pairs dmask layers channels = dmask"

text \<open>
  The result is \<open>Inr dmask\<close> when the function returns \<open>dmask\<close>, and \<open>Inl (e, calls)\<close> when
  it raises \<open>e\<close>, where \<open>calls\<close> is what the mask had received by then (nothing, when the
  mask was not yet created). In the branch that loads a file the first assertion has
  passed with \<open>layers\<close> absent, so \<open>dmask_file\<close> is present there.
\<close>

definition gen_dmask ::
  "(string \<Rightarrow> error option) \<Rightarrow> string list option \<Rightarrow> int list option \<Rightarrow> string option
     \<Rightarrow> error \<times> Mask + Mask" where
  "gen_dmask load_error layers channels dmask_file =
     (if \<not> ((layers = None) \<noteq> (dmask_file = None))
      then Inl (AssertionError ''Use one and only one of the 'layers' and 'dmask_file'!'', [])
      else if layers = None \<and> channels \<noteq> None
      then Inl (AssertionError '''channels' can't be used without 'layers'!'', [])
      else
        let dmask = Mask_new in
        case layers of
          None \<Rightarrow> Mask_load load_error dmask (the dmask_file)
        | Some ls \<Rightarrow>
            let n_layer = length ls in
            if n_layer = 0 then Inl (ValueError layers_empty, dmask)
            else if n_layer = 1 then Inr (Mask_set dmask (ls ! 0) channels)
            else
              (case channels of
                 None \<Rightarrow> Inr (set_layers dmask ls)
               | Some chs \<Rightarrow>
                   if n_layer = length chs then Inr (set_pairs dmask ls chs)
                   else Inl (ValueError channels_length, dmask)))"

section \<open>Notions of the specification\<close>

text \<open>
  ``A positive integer'': an instance of Python's \<open>int\<close> (of which \<open>bool\<close> is a subclass,
  \<open>True\<close> being 1) whose value is greater than zero.
\<close>

fun positive_integer :: "'f pyval \<Rightarrow> bool" where
  "positive_integer (IntV i) = (0 < i)"
| "positive_integer (BoolV b) = b"
| "positive_integer v = False"

text \<open>
  ``The integers starting at 1, up to \<open>n_frame\<close> inclusive, stepping by \<open>interval\<close>'': the
  numbers of \<open>1..n_frame\<close> at a multiple of \<open>interval\<close> from 1.
\<close>

definition frame_nums_spec :: "int \<Rightarrow> int \<Rightarrow> int list" where
  "frame_nums_spec n_frame interval = filter (\<lambda>k. (k - 1) mod interval = 0) [1..n_frame]"

text \<open>
  ``The initial onset plus the left-to-right cumulative sum of the durations'': the
  durations are added to the onset one after the other, in Python's \<open>+\<close>.
\<close>

fun running_sum :: "'f float_ops \<Rightarrow> 'f pyval \<Rightarrow> 'f list \<Rightarrow> error + 'f pyval" where
  "running_sum ops v [] = Inr v"
| "running_sum ops v (d # ds) =
     (case py_add_float ops v d of Inl e \<Rightarrow> Inl e | Inr w \<Rightarrow> running_sum ops w ds)"

section \<open>An arithmetic for the examples\<close>

text \<open>
  The examples below are run in exact arithmetic on the reals, with Python's refusal to
  convert an integer that is too large for a double: one whose magnitude reaches
  \<open>2^1024 - 2^970\<close>, halfway from the largest double to \<open>2^1024\<close>. Every other number
  in the examples is an integer or a multiple of a quarter well below \<open>2^53\<close>, and so is
  every intermediate result; on such inputs the doubles compute the same values without
  rounding.
\<close>

definition exact :: "real float_ops" where
  "exact =
     \<lparr>float_one = 1,
      float_of_int = (\<lambda>i. if \<bar>i\<bar> < 2 ^ 1024 - 2 ^ 970 then Some (real_of_int i) else None),
      float_is_zero = (\<lambda>x. x = 0),
      float_div = (\<lambda>x y. x / y),
      float_mul = (\<lambda>x y. x * y),
      float_add = (\<lambda>x y. x + y),
      float_trunc = (\<lambda>x. Trunc (if 0 \<le> x then \<lfloor>x\<rfloor> else \<lceil>x\<rceil>))\<rparr>"

section \<open>Auxiliary facts about the built-ins\<close>

lemma py_index_first: "py_index xs 0 = (if xs = [] then Inl IndexError else Inr 0)"
  by (simp add: py_index_def)

lemma py_index_last:
  "py_index xs (- 1) = (if xs = [] then Inl IndexError else Inr (length xs - 1))"
  by (cases xs) (simp_all add: py_index_def Let_def nat_diff_distrib')

lemma py_range_up:
  "0 < k \<Longrightarrow> py_range s e k = Inr (map (\<lambda>i. s + int i * k) [0..<range_length s e k])"
  by (simp add: py_range_def)

lemma range_length_zero_iff: "0 < k \<Longrightarrow> range_length 1 (n + 1) k = 0 \<longleftrightarrow> n < 1"
proof -
  assume k: "0 < k"
  have "0 \<le> (n - 1) div k" if "1 \<le> n"
    using that k by (simp add: pos_imp_zdiv_nonneg_iff)
  then show ?thesis
    by (auto simp: range_length_def)
qed

lemma positive_integer_iff: "positive_integer iv \<longleftrightarrow> isinstance_int iv \<and> 0 < int_of iv"
  by (cases iv) simp_all

lemma to_float_int:
  "positive_integer iv \<Longrightarrow>
   to_float ops iv =
     (case float_of_int ops (int_of iv) of None \<Rightarrow> Inl OverflowError | Some x \<Rightarrow> Inr x)"
  by (cases iv) simp_all

section \<open>The two outcomes of the interval check\<close>

text \<open>A rejected interval: the assertion fails before the video is touched.\<close>

lemma gfti_invalid:
  "\<not> positive_integer iv \<Longrightarrow> get_frame_time_info ops cv f oo iv b a =
     ([], Inl (AssertionError ''Parameter 'interval' must be a positive integer!''))"
  by (simp add: get_frame_time_info_def positive_integer_iff)

text \<open>
  An accepted interval: the video is read, and the body runs through the steps below in
  this order, where \<open>n\<close> is the number of sampled frames and \<open>base\<close> the uniform duration.
\<close>

lemma gfti_valid:
  assumes "positive_integer iv"
  shows "get_frame_time_info ops cv f oo iv b a =
     ([VideoCapture f, Get_FPS, Get_FRAME_COUNT],
      case float_trunc ops (CAP_PROP_FRAME_COUNT (cv f)) of
        TruncNaN \<Rightarrow> Inl (ValueError ''cannot convert float NaN to integer'')
      | TruncInf \<Rightarrow> Inl OverflowError
      | Trunc n_frame \<Rightarrow>
          if float_is_zero ops (CAP_PROP_FPS (cv f)) then Inl ZeroDivisionError
          else
           (case float_of_int ops (int_of iv) of
              None \<Rightarrow> Inl OverflowError
            | Some k \<Rightarrow>
                let n = range_length 1 (n_frame + 1) (int_of iv);
                    base = float_mul ops (float_div ops (float_one ops) (CAP_PROP_FPS (cv f))) k
                in if n = 0 then Inl IndexError
                   else
                    (case to_float ops b of
                       Inl e \<Rightarrow> Inl e
                     | Inr bf \<Rightarrow>
                        (case to_float ops a of
                           Inl e \<Rightarrow> Inl e
                         | Inr af \<Rightarrow>
                            let d1 = (replicate n base)[0 := float_add ops base bf];
                                d2 = d1[n - 1 := float_add ops (d1 ! (n - 1)) af]
                            in case append_onsets ops [oo] (butlast d2) of
                                 Inl e \<Rightarrow> Inl e
                               | Inr os \<Rightarrow>
                                   Inr (map (\<lambda>i. 1 + int i * int_of iv) [0..<n], os, d2)))))"
proof -
  have iv: "isinstance_int iv" "0 < int_of iv"
    using assms by (simp_all add: positive_integer_iff)
  show ?thesis
    using iv
    by (simp add: get_frame_time_info_def py_int_def py_range_up one_div_float_def
        float_mul_py_def float_add_py_def to_float_int [OF assms] getitem_def setitem_def
        py_index_first py_index_last Let_def
        split: trunc.split option.split sum.split)
qed

section \<open>The schedule that is returned\<close>

text \<open>
  The loop building the onsets, when it does not raise: it keeps what was there, adds one
  element per duration, and each new element is the sum of the element before it and
  the duration at hand.
\<close>

lemma append_onsets_length:
  "append_onsets ops os ds = Inr r \<Longrightarrow> length r = length os + length ds"
  by (induction ds arbitrary: os) (auto split: sum.splits)

lemma append_onsets_prefix:
  "append_onsets ops os ds = Inr r \<Longrightarrow> i < length os \<Longrightarrow> r ! i = os ! i"
proof (induction ds arbitrary: os)
  case Nil
  then show ?case by simp
next
  case (Cons d ds)
  from Cons.prems(1) obtain v where v: "py_add_float ops (last os) d = Inr v"
    and r: "append_onsets ops (os @ [v]) ds = Inr r"
    by (auto split: sum.splits)
  have "r ! i = (os @ [v]) ! i"
    using r Cons.prems(2) by (intro Cons.IH) simp_all
  then show ?case
    using Cons.prems(2) by (simp add: nth_append)
qed

lemma append_onsets_step:
  "append_onsets ops os ds = Inr r \<Longrightarrow> os \<noteq> [] \<Longrightarrow> i < length ds \<Longrightarrow>
   py_add_float ops (r ! (length os - 1 + i)) (ds ! i) = Inr (r ! (length os + i))"
proof (induction ds arbitrary: os i)
  case Nil
  then show ?case by simp
next
  case (Cons d ds)
  from Cons.prems(1) obtain v where v: "py_add_float ops (last os) d = Inr v"
    and r: "append_onsets ops (os @ [v]) ds = Inr r"
    by (auto split: sum.splits)
  show ?case
  proof (cases i)
    case 0
    have "r ! (length os - 1) = (os @ [v]) ! (length os - 1)"
      using r Cons.prems(2) by (intro append_onsets_prefix) simp_all
    then have a: "r ! (length os - 1) = last os"
      using Cons.prems(2) by (simp add: nth_append last_conv_nth)
    have "r ! length os = (os @ [v]) ! length os"
      using r by (intro append_onsets_prefix) simp_all
    then have b: "r ! length os = v"
      by simp
    show ?thesis
      using 0 a b v by simp
  next
    case (Suc j)
    have "py_add_float ops (r ! (length (os @ [v]) - 1 + j)) (ds ! j) =
            Inr (r ! (length (os @ [v]) + j))"
      using r Cons.prems(3) Suc by (intro Cons.IH) simp_all
    then have ih: "py_add_float ops (r ! (length os + j)) (ds ! j) = Inr (r ! Suc (length os + j))"
      by simp
    have idx: "length os - 1 + i = length os + j"
      using Suc Cons.prems(2) by (cases os) simp_all
    show ?thesis
      by (simp only: idx) (simp add: Suc ih)
  qed
qed


lemma running_sum_snoc:
  "running_sum ops v (ds @ [d]) =
     (case running_sum ops v ds of Inl e \<Rightarrow> Inl e | Inr w \<Rightarrow> py_add_float ops w d)"
  by (induction ds arbitrary: v) (auto split: sum.splits)

lemma onsets_running_sum:
  "append_onsets ops [v] ds = Inr r \<Longrightarrow> i \<le> length ds \<Longrightarrow>
   running_sum ops v (take i ds) = Inr (r ! i)"
proof (induction i)
  case 0
  then show ?case
    using append_onsets_prefix [of ops "[v]" ds r 0] by simp
next
  case (Suc i)
  have i: "i < length ds"
    using Suc.prems(2) by simp
  have "running_sum ops v (take (Suc i) ds) =
          (case running_sum ops v (take i ds) of
             Inl e \<Rightarrow> Inl e | Inr w \<Rightarrow> py_add_float ops w (ds ! i))"
    using i by (simp add: take_Suc_conv_app_nth running_sum_snoc)
  also have "\<dots> = py_add_float ops (r ! i) (ds ! i)"
    using Suc.IH [OF Suc.prems(1)] i by simp
  also have "\<dots> = Inr (r ! Suc i)"
    using append_onsets_step [OF Suc.prems(1) _ i] by simp
  finally show ?case .
qed

text \<open>
  Whenever a schedule is returned, the interval was a positive integer, the frame count
  was a number of at least one, the frame rate was not zero and every conversion went
  through; the three lists are then the ones below, with \<open>n\<close> the number of sampled frames
  and \<open>base\<close> the uniform duration.
\<close>

lemma gfti_returnsD:
  assumes "get_frame_time_info ops cv f oo iv b a = (tr, Inr (fn, os, ds))"
  obtains n_frame k bf af n base where
    "positive_integer iv"
    and "float_trunc ops (CAP_PROP_FRAME_COUNT (cv f)) = Trunc n_frame"
    and "1 \<le> n_frame"
    and "\<not> float_is_zero ops (CAP_PROP_FPS (cv f))"
    and "float_of_int ops (int_of iv) = Some k"
    and "to_float ops b = Inr bf" and "to_float ops a = Inr af"
    and "n = range_length 1 (n_frame + 1) (int_of iv)" and "0 < n"
    and "base = float_mul ops (float_div ops (float_one ops) (CAP_PROP_FPS (cv f))) k"
    and "fn = map (\<lambda>i. 1 + int i * int_of iv) [0..<n]"
    and "ds = ((replicate n base)[0 := float_add ops base bf])
                [n - 1 := float_add ops (((replicate n base)[0 := float_add ops base bf]) ! (n - 1)) af]"
    and "append_onsets ops [oo] (butlast ds) = Inr os"
    and "tr = [VideoCapture f, Get_FPS, Get_FRAME_COUNT]"
proof -
  have pos: "positive_integer iv"
    using assms gfti_invalid [of iv ops cv f oo b a] by auto
  then have kpos: "0 < int_of iv"
    by (simp add: positive_integer_iff)
  from assms obtain n_frame where nf: "float_trunc ops (CAP_PROP_FRAME_COUNT (cv f)) = Trunc n_frame"
    by (auto simp: gfti_valid [OF pos] split: trunc.splits)
  have z: "\<not> float_is_zero ops (CAP_PROP_FPS (cv f))"
    using assms by (auto simp: gfti_valid [OF pos] nf split: if_splits)
  from assms obtain k where k: "float_of_int ops (int_of iv) = Some k"
    by (auto simp: gfti_valid [OF pos] nf z split: option.splits)
  define n where "n = range_length 1 (n_frame + 1) (int_of iv)"
  define base where
    "base = float_mul ops (float_div ops (float_one ops) (CAP_PROP_FPS (cv f))) k"
  have n0: "n \<noteq> 0"
    using assms by (auto simp: gfti_valid [OF pos] nf z k Let_def n_def split: if_splits)
  from assms obtain bf where bf: "to_float ops b = Inr bf"
    using n0 by (auto simp: gfti_valid [OF pos] nf z k Let_def n_def [symmetric] split: sum.splits)
  from assms obtain af where af: "to_float ops a = Inr af"
    using n0
    by (auto simp: gfti_valid [OF pos] nf z k bf Let_def n_def [symmetric] split: sum.splits)
  have rest: "fn = map (\<lambda>i. 1 + int i * int_of iv) [0..<n]"
    "ds = ((replicate n base)[0 := float_add ops base bf])
            [n - 1 := float_add ops (((replicate n base)[0 := float_add ops base bf]) ! (n - 1)) af]"
    "append_onsets ops [oo] (butlast ds) = Inr os"
    "tr = [VideoCapture f, Get_FPS, Get_FRAME_COUNT]"
    using assms n0
    by (auto simp: gfti_valid [OF pos] nf z k bf af Let_def n_def [symmetric] base_def [symmetric]
        split: sum.splits)
  have "1 \<le> n_frame"
    using n0 range_length_zero_iff [OF kpos, of n_frame] by (simp add: n_def)
  then show thesis
    using that [of n_frame k bf af n base] pos nf z k bf af n0 n_def base_def rest by simp
qed

text \<open>Facts about \<open>range(1, n_frame + 1, interval)\<close> for a positive interval.\<close>

lemma div_bounds:
  fixes N k :: int
  assumes "0 < k"
  shows "(N - 1) div k * k < N" and "N \<le> ((N - 1) div k + 1) * k"
proof -
  define m r where "m = (N - 1) div k" and "r = (N - 1) mod k"
  have eq: "k * m + r = N - 1"
    unfolding m_def r_def by (rule mult_div_mod_eq)
  have r: "0 \<le> r" "r < k"
    using assms by (simp_all add: r_def)
  have "m * k < N" and "N \<le> (m + 1) * k"
    using eq r by (simp_all add: algebra_simps)
  then show "(N - 1) div k * k < N" and "N \<le> ((N - 1) div k + 1) * k"
    by (simp_all add: m_def)
qed

lemma ceiling_div_pos:
  fixes N k :: int
  assumes "0 < k"
  shows "\<lceil>real_of_int N / real_of_int k\<rceil> = (N - 1) div k + 1"
proof (rule ceiling_unique)
  have "real_of_int ((N - 1) div k * k) < real_of_int N"
    using div_bounds(1) [OF assms, of N] by (simp only: of_int_less_iff)
  then show "real_of_int ((N - 1) div k + 1) - 1 < real_of_int N / real_of_int k"
    using assms by (simp add: pos_less_divide_eq)
  have "real_of_int N \<le> real_of_int (((N - 1) div k + 1) * k)"
    using div_bounds(2) [OF assms, of N] by (simp only: of_int_le_iff)
  then show "real_of_int N / real_of_int k \<le> real_of_int ((N - 1) div k + 1)"
    using assms by (simp add: pos_divide_le_eq)
qed

lemma range_set:
  fixes N k :: int
  assumes k: "0 < k" and N: "1 \<le> N"
  shows "(\<lambda>i. 1 + int i * k) ` {0..<nat ((N - 1) div k + 1)} =
         {x. 1 \<le> x \<and> x \<le> N \<and> (x - 1) mod k = 0}"
proof (intro equalityI subsetI)
  fix x
  assume "x \<in> (\<lambda>i. 1 + int i * k) ` {0..<nat ((N - 1) div k + 1)}"
  then have "\<exists>i. x = 1 + int i * k \<and> i < nat ((N - 1) div k + 1)"
    by auto
  then obtain i where x: "x = 1 + int i * k" and i: "i < nat ((N - 1) div k + 1)"
    by blast
  have "int i \<le> (N - 1) div k"
    using i by linarith
  then have "int i * k \<le> (N - 1) div k * k"
    using k by (simp add: mult_right_mono)
  then have "x \<le> N"
    using div_bounds(1) [OF k, of N] x by linarith
  moreover have "1 \<le> x"
    using x k by simp
  moreover have "(x - 1) mod k = 0"
    using x by simp
  ultimately show "x \<in> {x. 1 \<le> x \<and> x \<le> N \<and> (x - 1) mod k = 0}"
    by simp
next
  fix x
  assume "x \<in> {x. 1 \<le> x \<and> x \<le> N \<and> (x - 1) mod k = 0}"
  then have x1: "1 \<le> x" and xN: "x \<le> N" and m: "(x - 1) mod k = 0"
    by simp_all
  define i where "i = nat ((x - 1) div k)"
  have nn: "0 \<le> (x - 1) div k"
    using x1 k by (simp add: pos_imp_zdiv_nonneg_iff)
  then have ii: "int i = (x - 1) div k"
    by (simp add: i_def)
  have "x - 1 = (x - 1) div k * k"
    using m by (simp add: mod_eq_0_iff_dvd)
  then have "x = 1 + int i * k"
    using ii by simp
  moreover have "(x - 1) div k \<le> (N - 1) div k"
    using xN k by (simp add: zdiv_mono1)
  then have "i < nat ((N - 1) div k + 1)"
    using ii nn by linarith
  ultimately show "x \<in> (\<lambda>i. 1 + int i * k) ` {0..<nat ((N - 1) div k + 1)}"
    by auto
qed

lemma sorted_frames:
  assumes "0 < (k::int)"
  shows "sorted_wrt (<) (map (\<lambda>i. 1 + int i * k) [0..<n])"
  using assms by (simp add: sorted_wrt_iff_nth_less)

lemma range_is_spec:
  fixes N k :: int
  assumes k: "0 < k" and N: "1 \<le> N"
  shows "map (\<lambda>i. 1 + int i * k) [0..<range_length 1 (N + 1) k] = frame_nums_spec N k"
proof -
  have n: "range_length 1 (N + 1) k = nat ((N - 1) div k + 1)"
    using N by (simp add: range_length_def)
  have s1: "sorted_wrt (<) (map (\<lambda>i. 1 + int i * k) [0..<range_length 1 (N + 1) k])"
    using k by (rule sorted_frames)
  have s2: "sorted_wrt (<) (frame_nums_spec N k)"
    unfolding frame_nums_spec_def by (rule sorted_wrt_filter) simp
  have "set (map (\<lambda>i. 1 + int i * k) [0..<range_length 1 (N + 1) k]) = set (frame_nums_spec N k)"
    using range_set [OF k N] by (auto simp: n frame_nums_spec_def)
  then show ?thesis
    using s1 s2 by (simp add: strict_sorted_iff sorted_distinct_set_unique)
qed

text \<open>The exceptions an accepted call can end in.\<close>

lemma to_float_errors: "to_float ops v = Inl e \<Longrightarrow> e = OverflowError \<or> e = TypeError"
  by (cases v) (auto split: option.splits)

lemma append_onsets_errors:
  "append_onsets ops os ds = Inl e \<Longrightarrow> e = OverflowError \<or> e = TypeError"
proof (induction ds arbitrary: os)
  case Nil
  then show ?case by simp
next
  case (Cons d ds)
  show ?case
  proof (cases "py_add_float ops (last os) d")
    case (Inl e')
    then have "to_float ops (last os) = Inl e" 
      using Cons.prems by (auto simp: py_add_float_def split: sum.splits)
    then show ?thesis by (rule to_float_errors)
  next
    case (Inr v)
    then have "append_onsets ops (os @ [v]) ds = Inl e"
      using Cons.prems by simp
    then show ?thesis by (rule Cons.IH)
  qed
qed

lemma gfti_errors:
  assumes "positive_integer iv"
    and "snd (get_frame_time_info ops cv f oo iv b a) = Inl e"
  shows "e = ValueError ''cannot convert float NaN to integer'' \<or> e = OverflowError \<or>
         e = ZeroDivisionError \<or> e = IndexError \<or> e = TypeError"
  using assms(2) to_float_errors [of ops b e] to_float_errors [of ops a e]
    append_onsets_errors [of ops _ _ e]
  by (auto simp: gfti_valid [OF assms(1)] Let_def
      split: trunc.splits if_splits option.splits sum.splits)


section \<open>Interval validation\<close>

text \<open>
  Claim C5. When \<open>interval\<close> is not a positive integer (0, -1 and 2.5 are instances), the
  call fails with an \<open>InvalidArgument\<close> error and the trace of video accesses is empty:
  nothing was read and nothing computed. When \<open>interval\<close> is a positive integer the check
  passes: the video is opened and queried, and whatever error may follow is not an
  \<open>InvalidArgument\<close>.
\<close>

theorem interval_validation:
  "(\<not> positive_integer iv \<longrightarrow>
      (\<exists>e. get_frame_time_info ops cv f oo iv b a = ([], Inl e) \<and> InvalidArgument e)) \<and>
   (positive_integer iv \<longrightarrow>
      fst (get_frame_time_info ops cv f oo iv b a) = [VideoCapture f, Get_FPS, Get_FRAME_COUNT] \<and>
      (\<forall>e. snd (get_frame_time_info ops cv f oo iv b a) = Inl e \<longrightarrow> \<not> InvalidArgument e))"
proof (intro conjI impI allI)
  assume "\<not> positive_integer iv"
  then show "\<exists>e. get_frame_time_info ops cv f oo iv b a = ([], Inl e) \<and> InvalidArgument e"
    by (simp add: gfti_invalid)
next
  assume "positive_integer iv"
  then show "fst (get_frame_time_info ops cv f oo iv b a) =
      [VideoCapture f, Get_FPS, Get_FRAME_COUNT]"
    by (simp add: gfti_valid)
next
  fix e
  assume "positive_integer iv" and "snd (get_frame_time_info ops cv f oo iv b a) = Inl e"
  then have "e = ValueError ''cannot convert float NaN to integer'' \<or> e = OverflowError \<or>
      e = ZeroDivisionError \<or> e = IndexError \<or> e = TypeError"
    by (rule gfti_errors)
  then show "\<not> InvalidArgument e"
    by (auto simp: layers_empty_def channels_length_def)
qed

theorem interval_validation_witness:
  "\<not> positive_integer (IntV 0 :: real pyval) \<and> \<not> positive_integer (IntV (- 1) :: real pyval) \<and>
   \<not> positive_integer (FloatV (5 / 2) :: real pyval) \<and> positive_integer (IntV 5 :: real pyval) \<and>
   (\<exists>e. get_frame_time_info exact (\<lambda>p. \<lparr>CAP_PROP_FPS = 4, CAP_PROP_FRAME_COUNT = 11\<rparr>)
       ''v.mp4'' (FloatV 0) (IntV 0) (IntV 0) (IntV 0) = ([], Inl e) \<and>
        InvalidArgument e) \<and>
   (\<exists>e. get_frame_time_info exact (\<lambda>p. \<lparr>CAP_PROP_FPS = 4, CAP_PROP_FRAME_COUNT = 11\<rparr>)
       ''v.mp4'' (FloatV 0) (IntV (- 1)) (IntV 0) (IntV 0) = ([], Inl e) \<and>
        InvalidArgument e) \<and>
   (\<exists>e. get_frame_time_info exact (\<lambda>p. \<lparr>CAP_PROP_FPS = 4, CAP_PROP_FRAME_COUNT = 11\<rparr>)
       ''v.mp4'' (FloatV 0) (FloatV (5 / 2)) (IntV 0) (IntV 0) = ([], Inl e) \<and>
        InvalidArgument e) \<and>
   fst (get_frame_time_info exact (\<lambda>p. \<lparr>CAP_PROP_FPS = 4, CAP_PROP_FRAME_COUNT = 11\<rparr>)
       ''v.mp4'' (FloatV 0) (IntV 5) (IntV 0) (IntV 0)) =
     [VideoCapture ''v.mp4'', Get_FPS, Get_FRAME_COUNT]"
  using
    interval_validation [of "IntV 0" exact
      "(\<lambda>p. \<lparr>CAP_PROP_FPS = 4, CAP_PROP_FRAME_COUNT = 11\<rparr>)" "''v.mp4''" "FloatV 0" "IntV 0" "IntV 0"]
    interval_validation [of "IntV (- 1)" exact
      "(\<lambda>p. \<lparr>CAP_PROP_FPS = 4, CAP_PROP_FRAME_COUNT = 11\<rparr>)" "''v.mp4''" "FloatV 0" "IntV 0" "IntV 0"]
    interval_validation [of "FloatV (5 / 2)" exact
      "(\<lambda>p. \<lparr>CAP_PROP_FPS = 4, CAP_PROP_FRAME_COUNT = 11\<rparr>)" "''v.mp4''" "FloatV 0" "IntV 0" "IntV 0"]
    interval_validation [of "IntV 5" exact
      "(\<lambda>p. \<lparr>CAP_PROP_FPS = 4, CAP_PROP_FRAME_COUNT = 11\<rparr>)" "''v.mp4''" "FloatV 0" "IntV 0" "IntV 0"]
  by simp

section \<open>When a schedule is returned\<close>







text \<open>
  Claim C1. In every returned schedule the onsets are as many as the durations and the
  frame numbers; the first onset is \<open>original_onset\<close>; at every later index of the
  schedule the onset is the sum, in Python's \<open>+\<close>, of the onset before it and the duration
  before it; and so each onset is \<open>original_onset\<close> with the durations before it added
  one after the other from the left.
\<close>

theorem cumulative_onsets:
  assumes "get_frame_time_info ops cv f original_onset iv b a =
             (tr, Inr (frame_nums, onsets, durations))"
  shows "length frame_nums = length durations \<and> length onsets = length durations \<and>
         0 < length durations \<and>
         onsets ! 0 = original_onset \<and>
         (\<forall>i. Suc i < length durations \<longrightarrow>
            py_add_float ops (onsets ! i) (durations ! i) = Inr (onsets ! Suc i)) \<and>
         (\<forall>i < length durations.
            running_sum ops original_onset (take i durations) = Inr (onsets ! i))"
proof -
  from assms obtain n base bf af where n: "0 < n"
    and fn: "frame_nums = map (\<lambda>i. 1 + int i * int_of iv) [0..<n]"
    and ds: "durations = ((replicate n base)[0 := float_add ops base bf])
        [n - 1 := float_add ops (((replicate n base)[0 := float_add ops base bf]) ! (n - 1)) af]"
    and os: "append_onsets ops [original_onset] (butlast durations) = Inr onsets"
    by (rule gfti_returnsD)
  have len: "length durations = n"
    using ds by simp
  have l1: "length frame_nums = length durations"
    using fn len by simp
  have l2: "length onsets = length durations"
    using append_onsets_length [OF os] n len by simp
  have first: "onsets ! 0 = original_onset"
    using append_onsets_prefix [OF os, of 0] by simp
  have step: "py_add_float ops (onsets ! i) (durations ! i) = Inr (onsets ! Suc i)"
    if "Suc i < length durations" for i
  proof -
    have i: "i < length (butlast durations)"
      using that by simp
    have "py_add_float ops (onsets ! (length [original_onset] - 1 + i)) (butlast durations ! i) =
            Inr (onsets ! (length [original_onset] + i))"
      using os _ i by (rule append_onsets_step) simp
    moreover have "butlast durations ! i = durations ! i"
      using i by (rule nth_butlast)
    ultimately show ?thesis by simp
  qed
  have sum: "running_sum ops original_onset (take i durations) = Inr (onsets ! i)"
    if "i < length durations" for i
  proof -
    have "i \<le> length (butlast durations)"
      using that by simp
    with os have "running_sum ops original_onset (take i (butlast durations)) = Inr (onsets ! i)"
      by (rule onsets_running_sum)
    moreover have "take i (butlast durations) = take i durations"
      using that by (rule take_butlast)
    ultimately show ?thesis by simp
  qed
  show ?thesis
    using l1 l2 n len first step sum by simp
qed

theorem cumulative_onsets_witness:
  "get_frame_time_info exact (\<lambda>p. \<lparr>CAP_PROP_FPS = 4, CAP_PROP_FRAME_COUNT = 11\<rparr>)
       ''v.mp4'' (FloatV (- 2)) (IntV 5) (FloatV (1 / 2)) (IntV 1) =
     ([VideoCapture ''v.mp4'', Get_FPS, Get_FRAME_COUNT],
      Inr ([1, 6, 11], [FloatV (- 2), FloatV (- (1 / 4)), FloatV 1], [7 / 4, 5 / 4, 9 / 4])) \<and>
   length [1, 6, 11 :: int] = length [7 / 4, 5 / 4, 9 / 4 :: real] \<and>
   length [FloatV (- 2), FloatV (- (1 / 4)), FloatV (1 :: real)] = length [7 / 4, 5 / 4, 9 / 4 :: real] \<and>
   [FloatV (- 2), FloatV (- (1 / 4)), FloatV (1 :: real)] ! 0 = FloatV (- 2) \<and>
   py_add_float exact ([FloatV (- 2), FloatV (- (1 / 4)), FloatV (1 :: real)] ! 0) ([7 / 4, 5 / 4, 9 / 4 :: real] ! 0) =
     Inr ([FloatV (- 2), FloatV (- (1 / 4)), FloatV (1 :: real)] ! Suc 0) \<and>
   py_add_float exact ([FloatV (- 2), FloatV (- (1 / 4)), FloatV (1 :: real)] ! Suc 0) ([7 / 4, 5 / 4, 9 / 4 :: real] ! Suc 0) =
     Inr ([FloatV (- 2), FloatV (- (1 / 4)), FloatV (1 :: real)] ! Suc (Suc 0)) \<and>
   running_sum exact (FloatV (- 2)) (take 2 [7 / 4, 5 / 4, 9 / 4 :: real]) =
     Inr ([FloatV (- 2), FloatV (- (1 / 4)), FloatV (1 :: real)] ! 2)"
proof -
  have h: "get_frame_time_info exact (\<lambda>p. \<lparr>CAP_PROP_FPS = 4, CAP_PROP_FRAME_COUNT = 11\<rparr>)
       ''v.mp4'' (FloatV (- 2)) (IntV 5) (FloatV (1 / 2)) (IntV 1) =
     ([VideoCapture ''v.mp4'', Get_FPS, Get_FRAME_COUNT],
      Inr ([1, 6, 11], [FloatV (- 2), FloatV (- (1 / 4)), FloatV 1], [7 / 4, 5 / 4, 9 / 4]))"
    by (simp add: gfti_valid exact_def range_length_def py_add_float_def Let_def eval_nat_numeral)
  show ?thesis
    using h cumulative_onsets [OF h]
    by (simp add: exact_def py_add_float_def eval_nat_numeral)
qed




text \<open>
  Claim C9. In every returned schedule \<open>frame_nums\<close> is the list of the integers from 1 up
  to \<open>n_frame\<close> inclusive in steps of \<open>interval\<close>, where \<open>n_frame\<close> is what \<open>int\<close> made of
  the reported frame count, and its length is the ceiling of \<open>n_frame / interval\<close>.
\<close>

theorem frame_numbers:
  assumes "get_frame_time_info ops cv f original_onset iv before_vid after_vid =
             (tr, Inr (frame_nums, onsets, durations))"
  shows "\<exists>n_frame. float_trunc ops (CAP_PROP_FRAME_COUNT (cv f)) = Trunc n_frame \<and>
           frame_nums = frame_nums_spec n_frame (int_of iv) \<and>
           int (length frame_nums) = \<lceil>real_of_int n_frame / real_of_int (int_of iv)\<rceil>"
proof -
  from assms obtain n_frame n where pos: "positive_integer iv"
    and tr: "float_trunc ops (CAP_PROP_FRAME_COUNT (cv f)) = Trunc n_frame"
    and N: "1 \<le> n_frame"
    and n: "n = range_length 1 (n_frame + 1) (int_of iv)"
    and fn: "frame_nums = map (\<lambda>i. 1 + int i * int_of iv) [0..<n]"
    by (rule gfti_returnsD)
  have k: "0 < int_of iv"
    using pos by (simp add: positive_integer_iff)
  have "frame_nums = frame_nums_spec n_frame (int_of iv)"
    unfolding fn n using k N by (rule range_is_spec)
  moreover have "0 \<le> (n_frame - 1) div int_of iv"
    using N k by (simp add: pos_imp_zdiv_nonneg_iff)
  then have "int (length frame_nums) = \<lceil>real_of_int n_frame / real_of_int (int_of iv)\<rceil>"
    using N by (simp add: fn n range_length_def ceiling_div_pos [OF k])
  ultimately show ?thesis
    using tr by blast
qed

theorem frame_numbers_witness:
  "get_frame_time_info exact (\<lambda>p. \<lparr>CAP_PROP_FPS = 4, CAP_PROP_FRAME_COUNT = 11\<rparr>)
       ''v.mp4'' (FloatV (- 2)) (IntV 5) (FloatV (1 / 2)) (IntV 1) =
     ([VideoCapture ''v.mp4'', Get_FPS, Get_FRAME_COUNT],
      Inr ([1, 6, 11], [FloatV (- 2), FloatV (- (1 / 4)), FloatV 1], [7 / 4, 5 / 4, 9 / 4])) \<and>
   float_trunc exact (11 :: real) = Trunc 11 \<and>
   [1, 6, 11] = frame_nums_spec 11 5 \<and>
   int (length [1, 6, 11 :: int]) = \<lceil>real_of_int 11 / real_of_int 5\<rceil>"
proof -
  have h: "get_frame_time_info exact (\<lambda>p. \<lparr>CAP_PROP_FPS = 4, CAP_PROP_FRAME_COUNT = 11\<rparr>)
       ''v.mp4'' (FloatV (- 2)) (IntV 5) (FloatV (1 / 2)) (IntV 1) =
     ([VideoCapture ''v.mp4'', Get_FPS, Get_FRAME_COUNT],
      Inr ([1, 6, 11], [FloatV (- 2), FloatV (- (1 / 4)), FloatV 1], [7 / 4, 5 / 4, 9 / 4]))"
    by (simp add: gfti_valid exact_def range_length_def py_add_float_def Let_def eval_nat_numeral)
  have t: "float_trunc exact (11 :: real) = Trunc 11"
    by (simp add: exact_def)
  from frame_numbers [OF h] obtain n_frame where
    n: "float_trunc exact (11 :: real) = Trunc n_frame"
    and c: "[1, 6, 11] = frame_nums_spec n_frame (int_of (IntV 5 :: real pyval))"
    by auto
  have "n_frame = 11"
    using n t by simp
  then have c': "[1, 6, 11] = frame_nums_spec 11 5"
    using c by simp
  have l: "int (length [1, 6, 11 :: int]) = \<lceil>real_of_int 11 / real_of_int 5\<rceil>"
    by simp
  show ?thesis
    by (intro conjI) (rule h, rule t, rule c', rule l)
qed

section \<open>Building a mask\<close>

lemma set_pairs_zip:
  "set_pairs dmask ls cs = dmask @ map (\<lambda>(l, c). Set l (Some [c])) (zip ls cs)"
  by (induction dmask ls cs rule: set_pairs.induct) (simp_all add: Mask_set_def)

text \<open>
  Claim C6. Giving both \<open>layers\<close> and the mask file, or neither, fails with an
  \<open>InvalidArgument\<close> error, the mask untouched. Giving the mask file alone hands the fresh
  mask to \<open>load\<close> and the outcome of the call is the outcome of \<open>load\<close>: whether the file
  loads or \<open>load\<close> raises, the mask has received that one \<open>load\<close> call and no \<open>set\<close> call.
\<close>

theorem xor_validation:
  "(layers \<noteq> None \<and> dmask_file \<noteq> None \<longrightarrow>
      (\<exists>e. gen_dmask le layers channels dmask_file = Inl (e, []) \<and> InvalidArgument e)) \<and>
   (layers = None \<and> dmask_file = None \<longrightarrow>
      (\<exists>e. gen_dmask le layers channels dmask_file = Inl (e, []) \<and> InvalidArgument e)) \<and>
   gen_dmask le None None (Some path) = Mask_load le Mask_new path \<and>
   gen_dmask le None None (Some path) =
      (case le path of None \<Rightarrow> Inr [Load path] | Some e \<Rightarrow> Inl (e, [Load path]))"
  by (simp add: gen_dmask_def Mask_load_def Mask_new_def split: option.splits)

theorem xor_validation_witness:
  "(\<exists>e. gen_dmask (\<lambda>p. None) (Some [''conv1'']) None (Some ''m.dmask.csv'') = Inl (e, []) \<and>
        InvalidArgument e) \<and>
   (\<exists>e. gen_dmask (\<lambda>p. None) None None None = Inl (e, []) \<and> InvalidArgument e) \<and>
   gen_dmask (\<lambda>p. None) None None (Some ''m.dmask.csv'') = Inr [Load ''m.dmask.csv''] \<and>
   gen_dmask (\<lambda>p. Some (OtherError ''no such file'')) None None (Some ''m.dmask.csv'') =
     Inl (OtherError ''no such file'', [Load ''m.dmask.csv''])"
  using
    xor_validation [of "Some [''conv1'']" "Some ''m.dmask.csv''" "\<lambda>p. None" None
      "''m.dmask.csv''"]
    xor_validation [of None None "\<lambda>p. None" None "''m.dmask.csv''"]
    xor_validation [of None None "\<lambda>p. Some (OtherError ''no such file'')" None
      "''m.dmask.csv''"]
  by (simp add: Mask_load_def Mask_new_def)

text \<open>
  Claim C7. With more than one layer and as many channels as layers, the returned mask has
  received exactly one \<open>set\<close> call per layer, in order, each with the one-element list of
  the channel at the same position: layers \<open>conv1, conv2\<close> with channels \<open>3, 5\<close> select
  \<open>conv1\<close> with \<open>[3]\<close> and \<open>conv2\<close> with \<open>[5]\<close>.
\<close>

theorem paired_channels:
  assumes "1 < length layers" and "length channels = length layers"
  shows "gen_dmask le (Some layers) (Some channels) None =
           Inr (map (\<lambda>(layer, chn). Set layer (Some [chn])) (zip layers channels))"
  using assms by (auto simp: gen_dmask_def Mask_new_def set_pairs_zip Let_def)

theorem paired_channels_witness:
  "1 < length [''conv1'', ''conv2''] \<and> length [3, 5 :: int] = length [''conv1'', ''conv2''] \<and>
   gen_dmask (\<lambda>p. None) (Some [''conv1'', ''conv2'']) (Some [3, 5]) None =
     Inr [Set ''conv1'' (Some [3]), Set ''conv2'' (Some [5])]"
  using paired_channels [of "[''conv1'', ''conv2'']" "[3, 5]" "\<lambda>p. None"]
  by simp

text \<open>
  Claim C8. A call that gives channels without layers, an empty list of layers, or more
  than one layer with a channel list of another length fails with an \<open>InvalidArgument\<close>
  error, and the mask has received no call by then: nothing was selected before the
  failure.
\<close>

theorem fail_fast:
  "(layers = None \<and> channels \<noteq> None \<longrightarrow>
      (\<exists>e. gen_dmask le layers channels dmask_file = Inl (e, []) \<and> InvalidArgument e)) \<and>
   (layers = Some [] \<longrightarrow>
      (\<exists>e. gen_dmask le layers channels dmask_file = Inl (e, []) \<and> InvalidArgument e)) \<and>
   (layers = Some ls \<and> channels = Some cs \<and> 1 < length ls \<and> length cs \<noteq> length ls \<longrightarrow>
      (\<exists>e. gen_dmask le layers channels dmask_file = Inl (e, []) \<and> InvalidArgument e))"
proof (intro conjI impI)
  assume "layers = None \<and> channels \<noteq> None"
  then show "\<exists>e. gen_dmask le layers channels dmask_file = Inl (e, []) \<and> InvalidArgument e"
    by (cases dmask_file) (auto simp: gen_dmask_def)
next
  assume "layers = Some []"
  then show "\<exists>e. gen_dmask le layers channels dmask_file = Inl (e, []) \<and> InvalidArgument e"
    by (cases dmask_file) (auto simp: gen_dmask_def Mask_new_def)
next
  assume "layers = Some ls \<and> channels = Some cs \<and> 1 < length ls \<and> length cs \<noteq> length ls"
  then show "\<exists>e. gen_dmask le layers channels dmask_file = Inl (e, []) \<and> InvalidArgument e"
    by (cases dmask_file) (auto simp: gen_dmask_def Mask_new_def Let_def)
qed

theorem fail_fast_witness:
  "(\<exists>e. gen_dmask (\<lambda>p. None) None (Some [1, 2]) (Some ''m.dmask.csv'') = Inl (e, []) \<and>
        InvalidArgument e) \<and>
   (\<exists>e. gen_dmask (\<lambda>p. None) (Some []) None None = Inl (e, []) \<and> InvalidArgument e) \<and>
   1 < length [''a'', ''b'', ''c''] \<and> length [1, 2 :: int] \<noteq> length [''a'', ''b'', ''c''] \<and>
   (\<exists>e. gen_dmask (\<lambda>p. None) (Some [''a'', ''b'', ''c'']) (Some [1, 2]) None = Inl (e, []) \<and>
        InvalidArgument e)"
  using
    fail_fast [of None "Some [1, 2]" "\<lambda>p. None" "Some ''m.dmask.csv''" "[]" "[]"]
    fail_fast [of "Some []" None "\<lambda>p. None" None "[]" "[]"]
    fail_fast [of "Some [''a'', ''b'', ''c'']" "Some [1, 2]" "\<lambda>p. None" None
      "[''a'', ''b'', ''c'']" "[1, 2]"]
  by simp

end
